theory Spec2Isabelle
  imports Complex_Main
begin

section \<open>The TouristPulse client component\<close>

text \<open>
  The component of the repository (a React function component written in TypeScript) keeps
  three pieces of state, loads a thirty-day outlook from the backend once it is mounted and
  renders one card per day. The interfaces it declares for the backend's reply become
  records; a JavaScript \<open>number\<close> is left as the type parameter \<open>'n\<close>, and the
  operations of the host (dates, number formatting) are taken as parameters.
\<close>

subsection \<open>Backend API response types\<close>

record 'n DemandSignal =
  source :: string
  factor :: string
  impact :: string
  weight :: 'n

record 'n TouristPulseOutlook =
  date :: string
  demand_level :: string
  confidence :: 'n
  drivers :: "'n DemandSignal list"
  summary :: string

text \<open>
  A property read from parsed JSON is absent (\<open>undefined\<close>), \<open>null\<close> or a value. The
  component guards the \<open>outlook\<close> property alone (\<open>data.outlook || []\<close>), so that
  field carries the three cases.
\<close>

datatype 'a js_property = Undefined | Null | Defined 'a

record 'n TouristPulseResponse =
  location :: string
  outlook :: "'n TouristPulseOutlook list js_property"
  generated_at :: string

subsection \<open>getLevelColor\<close>

text \<open>The style's field \<open>text\<close> is named \<open>text_color\<close> here.\<close>

record level_style =
  bg :: string
  text_color :: string
  border :: string
  label :: string

definition getLevelColor :: "string \<Rightarrow> level_style" where
  "getLevelColor level =
     (if level = ''very_high'' then
        \<lparr>bg = ''#d8b4fe'', text_color = ''#6b21a8'', border = ''#a855f7'', label = ''VERY HIGH''\<rparr>
      else if level = ''high'' then
        \<lparr>bg = ''#bbf7d0'', text_color = ''#166534'', border = ''#22c55e'', label = ''HIGH''\<rparr>
      else if level = ''moderate'' then
        \<lparr>bg = ''#bfdbfe'', text_color = ''#1e40af'', border = ''#3b82f6'', label = ''NORMAL''\<rparr>
      else if level = ''low'' then
        \<lparr>bg = ''#fef3c7'', text_color = ''#92400e'', border = ''#f59e0b'', label = ''LOW''\<rparr>
      else
        \<lparr>bg = ''#e5e7eb'', text_color = ''#374151'', border = ''#9ca3af'', label = ''UNKNOWN''\<rparr>)"

subsection \<open>Component state and the host environment\<close>

record 'n component_state =
  st_outlook :: "'n TouristPulseOutlook list"
  st_loading :: bool
  st_error :: "string option"
  st_location :: string

definition initial_state :: "'n component_state" where
  "initial_state =
     \<lparr>st_outlook = [], st_loading = True, st_error = None, st_location = ''Santa Cruz''\<rparr>"

text \<open>
  What the JavaScript host computes and the component only calls: the two date formats of
  \<open>new Date(s)\<close>, whether a number is truthy, the text React shows for a number,
  \<open>Math.round(c * 100)\<close> and \<open>toFixed(2)\<close> as text, and the message of the
  \<open>TypeError\<close> the host throws when a property of \<open>null\<close> is read.
\<close>

record 'n host =
  toLocaleString :: "string \<Rightarrow> string"
  toLocaleDateString :: "string \<Rightarrow> string"
  truthy :: "'n \<Rightarrow> bool"
  number_text :: "'n \<Rightarrow> string"
  round_percent :: "'n \<Rightarrow> string"
  toFixed2 :: "'n \<Rightarrow> string"
  null_read_message :: string

subsection \<open>The request\<close>

definition hex_digit :: "nat \<Rightarrow> char" where
  "hex_digit n = ''0123456789ABCDEF'' ! (n mod 16)"

definition unreserved :: "char \<Rightarrow> bool" where
  "unreserved c \<longleftrightarrow>
     c \<in> set ''ABCDEFGHIJKLMNOPQRSTUVWXYZabcdefghijklmnopqrstuvwxyz0123456789-_.!~*()'' \<or>
     c = CHR 0x27"

text \<open>
  \<open>encodeURIComponent\<close> on the UTF-8 bytes of a string: a byte outside the unreserved
  set becomes \<open>%XX\<close>.
\<close>

definition encode_byte :: "char \<Rightarrow> string" where
  "encode_byte c =
     (if unreserved c then [c]
      else [CHR ''%'', hex_digit (of_char c div 16), hex_digit (of_char c mod 16)])"

definition encodeURIComponent :: "string \<Rightarrow> string" where
  "encodeURIComponent s = concat (map encode_byte s)"

text \<open>\<open>process.env.NEXT_PUBLIC_BACKEND_URL || 'http://localhost:8000'\<close>: an unset or
  empty variable gives the default.\<close>

definition backendUrl :: "string option \<Rightarrow> string" where
  "backendUrl env =
     (case env of
        None \<Rightarrow> ''http://localhost:8000''
      | Some u \<Rightarrow> if u = [] then ''http://localhost:8000'' else u)"

definition request_url :: "string option \<Rightarrow> string \<Rightarrow> string" where
  "request_url env loc =
     backendUrl env @ ''/touristpulse/outlook?location='' @ encodeURIComponent loc @ ''&days=30''"

subsection \<open>loadTouristOutlook\<close>

text \<open>
  A thrown value is an \<open>Error\<close> with its message, or something else. A reply's body
  parses to \<open>null\<close> (\<open>None\<close>) or to a value read at the type the component declares
  for it, \<open>TouristPulseResponse\<close>; a value that is not an object (a number, a string, an
  array) has no \<open>outlook\<close> property, as a response whose \<open>outlook\<close> is
  \<open>Undefined\<close>. Reading \<open>data.outlook\<close> of the body \<open>null\<close> throws a
  \<open>TypeError\<close> inside the \<open>try\<close> block. The message the component also writes to the
  console is left out of the state.
\<close>

datatype thrown = Error string | NotAnError

record 'n response =
  ok :: bool
  status :: nat
  json :: "thrown + 'n TouristPulseResponse option"

datatype 'n fetch_outcome = Rejected thrown | Resolved "'n response"

fun show_nat :: "nat \<Rightarrow> string" where
  "show_nat n =
     (if n < 10 then [''0123456789'' ! n]
      else show_nat (n div 10) @ [''0123456789'' ! (n mod 10)])"

declare show_nat.simps [simp del]

definition catch :: "thrown \<Rightarrow> string" where
  "catch err = (case err of Error m \<Rightarrow> m | NotAnError \<Rightarrow> ''Failed to load tourist outlook'')"

definition loadTouristOutlook ::
  "'n host \<Rightarrow> string option \<Rightarrow> (string \<Rightarrow> 'n fetch_outcome) \<Rightarrow> 'n component_state \<Rightarrow>
     'n component_state" where
  "loadTouristOutlook h env fetch s =
     (let s1 = s\<lparr>st_loading := True, st_error := None\<rparr>;
          s2 = (case fetch (request_url env (st_location s1)) of
                  Rejected err \<Rightarrow> s1\<lparr>st_error := Some (catch err)\<rparr>
                | Resolved r \<Rightarrow>
                    if \<not> ok r then
                      s1\<lparr>st_error := Some (catch (Error (''Backend API error: '' @ show_nat (status r))))\<rparr>
                    else
                      (case json r of
                         Inl err \<Rightarrow> s1\<lparr>st_error := Some (catch err)\<rparr>
                       | Inr None \<Rightarrow>
                           s1\<lparr>st_error := Some (catch (Error (null_read_message h)))\<rparr>
                       | Inr (Some data) \<Rightarrow>
                           s1\<lparr>st_outlook :=
                                (case outlook data of Defined days \<Rightarrow> days | _ \<Rightarrow> [])\<rparr>))
      in s2\<lparr>st_loading := False\<rparr>)"

subsection \<open>Rendering\<close>

datatype confidence_view = Percent string | Bare string

record day_card =
  colors :: level_style
  day_text :: string
  confidence_text :: confidence_view
  summary_text :: "string option"
  driver_items :: "string list option"

datatype view =
  LoadingView string
| ErrorView string
| ForecastView string string "day_card list" "string option"

definition driver_item :: "'n host \<Rightarrow> 'n DemandSignal \<Rightarrow> string" where
  "driver_item h driver =
     source driver @ '': '' @ factor driver @ '' ('' @ impact driver @ '', weight: '' @
       toFixed2 h (weight driver) @ '')''"

definition render_day :: "'n host \<Rightarrow> 'n TouristPulseOutlook \<Rightarrow> day_card" where
  "render_day h day =
     \<lparr>colors = getLevelColor (demand_level day),
      day_text = toLocaleDateString h (date day),
      confidence_text =
        (if truthy h (confidence day)
         then Percent ('' ('' @ round_percent h (confidence day) @ ''% confidence)'')
         else Bare (number_text h (confidence day))),
      summary_text = (if summary day = [] then None else Some (summary day)),
      driver_items =
        (if length (drivers day) > 0 then Some (map (driver_item h) (drivers day)) else None)\<rparr>"

definition forecast :: "'n host \<Rightarrow> 'n component_state \<Rightarrow> view" where
  "forecast h s =
     ForecastView (''30-Day Tourism Forecast for '' @ st_location s)
       (''Generated at: '' @
          (if length (st_outlook s) > 0 then toLocaleString h (date (st_outlook s ! 0)) else ''N/A''))
       (map (render_day h) (st_outlook s))
       (if length (st_outlook s) = 0 then Some ''No outlook data available'' else None)"

text \<open>\<open>if (error)\<close> takes a message that is not the empty string; \<open>null\<close> and the empty
  string fall through to the forecast.\<close>

definition TouristPulse :: "'n host \<Rightarrow> 'n component_state \<Rightarrow> view" where
  "TouristPulse h s =
     (if st_loading s then LoadingView ''Loading tourism predictions from backend...''
      else case st_error s of
        None \<Rightarrow> forecast h s
      | Some e \<Rightarrow> if e \<noteq> [] then ErrorView (''Error: '' @ e) else forecast h s)"

text \<open>The component once mounted: the effect runs the load from the initial state, and the
  component renders the state the load leaves.\<close>

definition mounted :: "'n host \<Rightarrow> string option \<Rightarrow> (string \<Rightarrow> 'n fetch_outcome) \<Rightarrow> view" where
  "mounted h env fetch = TouristPulse h (loadTouristOutlook h env fetch initial_state)"

subsection \<open>Reading a request URL\<close>

text \<open>
  How the receiving endpoint reads a request: the fragment is never sent, the query is what
  follows the first \<open>?\<close>, its parameters are separated by \<open>&\<close> and each is a name
  and a value around the first \<open>=\<close>. \<open>query_values\<close> lists every value a URL gives for
  a name, and \<open>parse_nat\<close> reads a decimal integer.
\<close>

fun split_on :: "char \<Rightarrow> string \<Rightarrow> string list" where
  "split_on c [] = [[]]"
| "split_on c (x # xs) =
     (if x = c then [] # split_on c xs
      else (case split_on c xs of [] \<Rightarrow> [[x]] | p # ps \<Rightarrow> (x # p) # ps))"







section \<open>The forecast engine, as its specification describes it\<close>

text \<open>
  The backend that answers the component's request has no code to embed. The parts of it
  that the properties below are about are written down from the words of the
  specification; its numbers are exact rationals, not floating-point numbers.
\<close>

text \<open>Modelled from the spec: the error taxonomy of the engine (the backend's errors are
  missing).\<close>

datatype engine_error =
  InvalidSignal | InvalidConfiguration | ModelInputMismatch | UpstreamTimeout | InsufficientHistory

subsection \<open>Signal ingestion\<close>

text \<open>Modelled from the spec: the external sources of Signals (the backend's enumeration is
  missing).\<close>

datatype signal_source = Transactions | Weather | Events | Traffic | RentListings









subsection \<open>Tier classification with hysteresis\<close>

text \<open>Modelled from the spec: the modules of the engine (the backend's enumeration is
  missing).\<close>

datatype module = Cashflow | Tourism | Rent | Demand

text \<open>Modelled from the spec: one boundary between two neighbouring tiers (the classifier's
  configuration is missing): the cutoff used without history, the upper threshold that a
  move to the higher tier has to reach, and the lower threshold that a return has to fall
  below.\<close>

record band =
  lower :: rat
  cutoff :: rat
  upper :: rat

text \<open>Modelled from the spec: the validation of a module's ordered bands at startup (the
  configuration code is missing). In each band the lower threshold is strictly below the
  upper one and the cutoff lies between them, and the bands ascend without overlapping.\<close>

definition valid_bands :: "band list \<Rightarrow> bool" where
  "valid_bands bs \<longleftrightarrow>
     list_all (\<lambda>b. lower b < upper b \<and> lower b \<le> cutoff b \<and> cutoff b \<le> upper b) bs \<and>
     sorted_wrt (\<lambda>a b. upper a \<le> lower b) bs"

text \<open>Modelled from the spec: the startup check (the configuration code is missing), which
  fails with \<open>InvalidConfiguration\<close> on bands that are not valid.\<close>

definition check_bands :: "band list \<Rightarrow> engine_error + band list" where
  "check_bands bs = (if valid_bands bs then Inr bs else Inl InvalidConfiguration)"

text \<open>Modelled from the spec: how many of the ordered boundaries a score has reached, by the
  given threshold of each (the classifier's code is missing). Tiers are numbered from the
  lowest, \<open>0\<close>, so this count is a tier.\<close>

definition reached :: "(band \<Rightarrow> rat) \<Rightarrow> band list \<Rightarrow> rat \<Rightarrow> nat" where
  "reached threshold bs score = length (filter (\<lambda>b. threshold b \<le> score) bs)"

text \<open>Modelled from the spec: the classifier (its code is missing). Without a last tier the
  cutoffs decide. With one, the tier rises only as far as the score has reached upper
  thresholds, falls only as far as the score is below lower thresholds, and stays
  otherwise.\<close>

definition classify :: "band list \<Rightarrow> nat option \<Rightarrow> rat \<Rightarrow> nat" where
  "classify bs last_tier score =
     (case last_tier of
        None \<Rightarrow> reached cutoff bs score
      | Some t \<Rightarrow>
          if t < reached upper bs score then reached upper bs score
          else if reached lower bs score < t then reached lower bs score
          else t)"

text \<open>Modelled from the spec: the classifier state, the last tier of each module and location
  (the persistence layer is missing), and one classification that reads and writes it.\<close>

type_synonym tier_state = "module \<times> string \<Rightarrow> nat option"

definition classify_request ::
  "(module \<Rightarrow> band list) \<Rightarrow> tier_state \<Rightarrow> module \<times> string \<Rightarrow> rat \<Rightarrow> nat \<times> tier_state" where
  "classify_request cfg st key score =
     (let t = classify (cfg (fst key)) (st key) score in (t, st(key \<mapsto> t)))"

text \<open>Modelled from the spec: the classification of consecutive periods of one module and
  location (the engine's loop is missing), each period starting from the state the one
  before left.\<close>

fun classify_periods ::
  "(module \<Rightarrow> band list) \<Rightarrow> tier_state \<Rightarrow> module \<times> string \<Rightarrow> rat list \<Rightarrow> nat list \<times> tier_state" where
  "classify_periods cfg st key [] = ([], st)"
| "classify_periods cfg st key (score # scores) =
     (case classify_request cfg st key score of
        (t, st') \<Rightarrow>
          (case classify_periods cfg st' key scores of (ts, st'') \<Rightarrow> (t # ts, st'')))"

text \<open>Modelled from the spec: the tier-change count of the hysteresis test (the test is
  missing), the number of places in a sequence of tiers where the tier differs from the one
  before.\<close>

fun tier_changes :: "nat list \<Rightarrow> nat" where
  "tier_changes (a # b # ts) = (if a \<noteq> b then 1 else 0) + tier_changes (b # ts)"
| "tier_changes ts = 0"

text \<open>Modelled from the spec: the scores that keep tier \<open>t\<close> (the classifier's code is
  missing): below the upper threshold of the boundary above \<open>t\<close>, and not below the lower
  threshold of the boundary under it.\<close>

definition keeps_tier :: "band list \<Rightarrow> nat \<Rightarrow> rat \<Rightarrow> bool" where
  "keeps_tier bs t score \<longleftrightarrow>
     (t < length bs \<longrightarrow> score < upper (bs ! t)) \<and> (0 < t \<longrightarrow> lower (bs ! (t - 1)) \<le> score)"

text \<open>Modelled from the spec: a score is near boundary \<open>i\<close> when it has reached the upper
  threshold of every boundary under \<open>i\<close> and is below the lower threshold of every boundary
  above it, so that only boundary \<open>i\<close> is in question (the classifier's code is missing).
  With ascending bands the neighbouring boundaries decide.\<close>

definition near_boundary :: "band list \<Rightarrow> nat \<Rightarrow> rat \<Rightarrow> bool" where
  "near_boundary bs i score \<longleftrightarrow>
     (0 < i \<longrightarrow> upper (bs ! (i - 1)) \<le> score) \<and>
     (Suc i < length bs \<longrightarrow> score < lower (bs ! Suc i))"

text \<open>Modelled from the spec: the hysteresis of one boundary in the specification's words,
  as a latch (the classifier's code is missing). The latch goes to the high side when the
  score has reached the upper threshold, returns to the low side when the score has fallen
  below the lower threshold, and keeps its side in between.\<close>

definition latch_step :: "band \<Rightarrow> bool \<Rightarrow> rat \<Rightarrow> bool" where
  "latch_step b high score =
     (if upper b \<le> score then True else if score < lower b then False else high)"

fun latch :: "band \<Rightarrow> bool \<Rightarrow> rat list \<Rightarrow> bool list" where
  "latch b high [] = []"
| "latch b high (score # scores) =
     latch_step b high score # latch b (latch_step b high score) scores"

text \<open>Modelled from the spec: the tier on either side of boundary \<open>i\<close> (the classifier's
  code is missing).\<close>

definition side_tier :: "nat \<Rightarrow> bool \<Rightarrow> nat" where
  "side_tier i high = (if high then Suc i else i)"

text \<open>Modelled from the spec: the side of boundary \<open>i\<close> on which a run of periods starts
  (the classifier's code is missing): the side of the stored last tier, or without one the
  side of the cutoff on which the first score lies.\<close>

definition start_side :: "band \<Rightarrow> nat \<Rightarrow> nat option \<Rightarrow> rat list \<Rightarrow> bool" where
  "start_side b i last_tier scores =
     (case last_tier of
        Some t \<Rightarrow> i < t
      | None \<Rightarrow> (case scores of [] \<Rightarrow> False | score # _ \<Rightarrow> cutoff b \<le> score))"

text \<open>Modelled from the spec: the periods whose score lies outside the band, each marked
  with its side, high when the score has reached the upper threshold and low when it is
  below the lower one (the hysteresis test is missing). Two neighbours of different sides in
  this sequence are one crossing of the whole band.\<close>

definition band_exits :: "band \<Rightarrow> rat list \<Rightarrow> bool list" where
  "band_exits b scores =
     map (\<lambda>score. upper b \<le> score) (filter (\<lambda>score. upper b \<le> score \<or> score < lower b) scores)"

text \<open>Modelled from the spec: the crossings of the band by a run of scores that starts on
  the given side (the hysteresis test is missing): the number of times the score, when it
  lies outside the band, lies on the other side than the last time it did, or than the side
  the run started on.\<close>

definition crossings :: "band \<Rightarrow> bool \<Rightarrow> rat list \<Rightarrow> nat" where
  "crossings b start scores = tier_changes (map (side_tier 0) (start # band_exits b scores))"

subsection \<open>Explanation assembly\<close>

text \<open>Modelled from the spec: the impact of a Driver (the backend's enumeration is
  missing).\<close>

datatype driver_impact = Positive | Negative | Neutral

text \<open>Modelled from the spec: a Feature that contributed to a Score, with the weight its
  source has in the module (the scoring code is missing).\<close>

record contributing_feature =
  cf_source :: string
  cf_factor :: string
  cf_value :: rat
  cf_source_weight :: rat

text \<open>Modelled from the spec: the Driver of the data model (the backend's own type is
  missing).\<close>

record Driver =
  drv_source :: string
  drv_factor :: string
  drv_impact :: driver_impact
  drv_weight :: rat

text \<open>Modelled from the spec: the weighted contribution of a Feature to the Score, its value
  times its source's weight (the scoring code is missing).\<close>

definition contribution :: "contributing_feature \<Rightarrow> rat" where
  "contribution c = cf_value c * cf_source_weight c"

text \<open>Modelled from the spec: the impact of a Driver is the sign of its contribution (the
  assembler's code is missing).\<close>

definition impact_of :: "rat \<Rightarrow> driver_impact" where
  "impact_of x = (if 0 < x then Positive else if x < 0 then Negative else Neutral)"

text \<open>Modelled from the spec: the ranking of the contributing Features by absolute weighted
  contribution, largest first (the assembler's code is missing).\<close>

definition rank :: "contributing_feature list \<Rightarrow> contributing_feature list" where
  "rank cs = sort_key (\<lambda>c. - \<bar>contribution c\<bar>) cs"

text \<open>Modelled from the spec: the normalisation of the kept drivers' weights (the assembler's
  code is missing): each absolute contribution over their total. The specification does
  not say what happens when the total is zero; the weights are then left at zero.\<close>

definition normalize :: "contributing_feature list \<Rightarrow> Driver list" where
  "normalize kept =
     (let total = sum_list (map (\<lambda>c. \<bar>contribution c\<bar>) kept)
      in map (\<lambda>c. \<lparr>drv_source = cf_source c, drv_factor = cf_factor c,
                    drv_impact = impact_of (contribution c),
                    drv_weight = (if total = 0 then 0 else \<bar>contribution c\<bar> / total)\<rparr>) kept)"

text \<open>Modelled from the spec: the Explanation Assembler's driver list (its code is missing):
  rank, keep the top \<open>k\<close> (a configured number, five by default), normalise their
  weights.\<close>

definition assemble_drivers :: "nat \<Rightarrow> contributing_feature list \<Rightarrow> Driver list" where
  "assemble_drivers k cs = normalize (take k (rank cs))"

section \<open>Properties of the client component\<close>

subsection \<open>The request\<close>






lemma split_on_absent: "c \<notin> set xs \<Longrightarrow> split_on c xs = [xs]"
  by (induction xs) auto





lemma loadTouristOutlook_one_request:
  "fetch (request_url env (st_location s)) = fetch' (request_url env (st_location s)) \<Longrightarrow>
   loadTouristOutlook h env fetch s = loadTouristOutlook h env fetch' s"
  by (simp add: loadTouristOutlook_def)



subsection \<open>getLevelColor\<close>

text \<open>
  Claim C8. \<open>getLevelColor\<close> is defined on every string: the four tier values map to the
  styles labelled LOW, NORMAL (for \<open>moderate\<close>), HIGH and VERY HIGH, and every other string
  maps to the gray style labelled UNKNOWN.
\<close>

theorem getLevelColor_total:
  "getLevelColor ''low'' =
     \<lparr>bg = ''#fef3c7'', text_color = ''#92400e'', border = ''#f59e0b'', label = ''LOW''\<rparr> \<and>
   getLevelColor ''moderate'' =
     \<lparr>bg = ''#bfdbfe'', text_color = ''#1e40af'', border = ''#3b82f6'', label = ''NORMAL''\<rparr> \<and>
   getLevelColor ''high'' =
     \<lparr>bg = ''#bbf7d0'', text_color = ''#166534'', border = ''#22c55e'', label = ''HIGH''\<rparr> \<and>
   getLevelColor ''very_high'' =
     \<lparr>bg = ''#d8b4fe'', text_color = ''#6b21a8'', border = ''#a855f7'', label = ''VERY HIGH''\<rparr> \<and>
   (\<forall>level. level \<notin> {''low'', ''moderate'', ''high'', ''very_high''} \<longrightarrow>
      getLevelColor level =
        \<lparr>bg = ''#e5e7eb'', text_color = ''#374151'', border = ''#9ca3af'', label = ''UNKNOWN''\<rparr>)"
  by (simp add: getLevelColor_def)

theorem getLevelColor_total_witness:
  "''medium'' \<notin> {''low'', ''moderate'', ''high'', ''very_high''} \<and>
   getLevelColor ''medium'' =
     \<lparr>bg = ''#e5e7eb'', text_color = ''#374151'', border = ''#9ca3af'', label = ''UNKNOWN''\<rparr>"
proof
  show out: "''medium'' \<notin> {''low'', ''moderate'', ''high'', ''very_high''}" by simp
  have "''medium'' \<notin> {''low'', ''moderate'', ''high'', ''very_high''} \<longrightarrow>
      getLevelColor ''medium'' =
        \<lparr>bg = ''#e5e7eb'', text_color = ''#374151'', border = ''#9ca3af'', label = ''UNKNOWN''\<rparr>"
    by (rule getLevelColor_total [THEN conjunct2, THEN conjunct2, THEN conjunct2, THEN conjunct2,
          THEN spec])
  then show "getLevelColor ''medium'' =
     \<lparr>bg = ''#e5e7eb'', text_color = ''#374151'', border = ''#9ca3af'', label = ''UNKNOWN''\<rparr>"
    using out by (rule mp)
qed

subsection \<open>Loading and rendering\<close>

lemma loadTouristOutlook_ok:
  assumes "fetch (request_url env (st_location s)) = Resolved r" and "ok r"
    and "json r = Inr (Some data)"
  shows "loadTouristOutlook h env fetch s =
           s\<lparr>st_outlook := (case outlook data of Defined days \<Rightarrow> days | _ \<Rightarrow> []),
             st_loading := False, st_error := None\<rparr>"
  using assms by (simp add: loadTouristOutlook_def)

lemma loadTouristOutlook_null_body:
  assumes "fetch (request_url env (st_location s)) = Resolved r" and "ok r" and "json r = Inr None"
  shows "loadTouristOutlook h env fetch s =
           s\<lparr>st_loading := False, st_error := Some (null_read_message h)\<rparr>"
  using assms by (simp add: loadTouristOutlook_def catch_def)

text \<open>
  Claim C10, as amended. When the backend's reply is successful and its body parses to a
  value other than \<open>null\<close> that has no \<open>outlook\<close> property, or has \<open>null\<close> there,
  then whatever the component held before, it stores the empty list, ends loading, leaves
  the error unset, and renders the forecast with the notice that no outlook data is
  available.
\<close>

theorem missing_outlook_renders_empty:
  assumes "fetch (request_url env (st_location s)) = Resolved r" and "ok r"
    and "json r = Inr (Some data)"
    and "outlook data = Undefined \<or> outlook data = Null"
  shows "loadTouristOutlook h env fetch s =
           s\<lparr>st_outlook := [], st_loading := False, st_error := None\<rparr> \<and>
         TouristPulse h (loadTouristOutlook h env fetch s) =
           ForecastView (''30-Day Tourism Forecast for '' @ st_location s) ''Generated at: N/A'' []
             (Some ''No outlook data available'')"
proof -
  have st: "loadTouristOutlook h env fetch s =
              s\<lparr>st_outlook := [], st_loading := False, st_error := None\<rparr>"
    using loadTouristOutlook_ok
      [where fetch = fetch and env = env and s = s and r = r and data = data and h = h,
        OF assms(1,2,3)] assms(4)
    by auto
  show ?thesis
    unfolding st by (simp add: TouristPulse_def forecast_def)
qed

theorem missing_outlook_renders_empty_witness:
  "loadTouristOutlook
     \<lparr>toLocaleString = (\<lambda>s. s), toLocaleDateString = (\<lambda>s. s), truthy = (\<lambda>c::rat. c \<noteq> 0),
      number_text = (\<lambda>c. ''0''), round_percent = (\<lambda>c. ''80''),
      toFixed2 = (\<lambda>c. ''1.00''), null_read_message = ''data is null''\<rparr>
     None
     (\<lambda>url. Resolved \<lparr>ok = True, status = 200,
       json = Inr (Some \<lparr>location = ''Santa Cruz'', outlook = Null,
                         generated_at = ''2026-01-17T08:00:00''\<rparr>)\<rparr>)
     \<lparr>st_outlook = [\<lparr>date = ''2026-01-10'', demand_level = ''low'', confidence = 1 / 2,
                      drivers = [], summary = ''Quiet''\<rparr>],
      st_loading = False, st_error = Some ''Backend API error: 500'',
      st_location = ''Santa Cruz''\<rparr> =
     \<lparr>st_outlook = [], st_loading = False, st_error = None, st_location = ''Santa Cruz''\<rparr> \<and>
   TouristPulse
     \<lparr>toLocaleString = (\<lambda>s. s), toLocaleDateString = (\<lambda>s. s), truthy = (\<lambda>c::rat. c \<noteq> 0),
      number_text = (\<lambda>c. ''0''), round_percent = (\<lambda>c. ''80''),
      toFixed2 = (\<lambda>c. ''1.00''), null_read_message = ''data is null''\<rparr>
     (loadTouristOutlook
       \<lparr>toLocaleString = (\<lambda>s. s), toLocaleDateString = (\<lambda>s. s), truthy = (\<lambda>c::rat. c \<noteq> 0),
        number_text = (\<lambda>c. ''0''), round_percent = (\<lambda>c. ''80''),
        toFixed2 = (\<lambda>c. ''1.00''), null_read_message = ''data is null''\<rparr>
       None
       (\<lambda>url. Resolved \<lparr>ok = True, status = 200,
         json = Inr (Some \<lparr>location = ''Santa Cruz'', outlook = Null,
                           generated_at = ''2026-01-17T08:00:00''\<rparr>)\<rparr>)
       \<lparr>st_outlook = [\<lparr>date = ''2026-01-10'', demand_level = ''low'', confidence = 1 / 2,
                        drivers = [], summary = ''Quiet''\<rparr>],
        st_loading = False, st_error = Some ''Backend API error: 500'',
        st_location = ''Santa Cruz''\<rparr>) =
   ForecastView ''30-Day Tourism Forecast for Santa Cruz'' ''Generated at: N/A'' []
     (Some ''No outlook data available'')"
proof -
  let ?h = "\<lparr>toLocaleString = (\<lambda>s. s), toLocaleDateString = (\<lambda>s. s), truthy = (\<lambda>c::rat. c \<noteq> 0),
      number_text = (\<lambda>c. ''0''), round_percent = (\<lambda>c. ''80''),
      toFixed2 = (\<lambda>c. ''1.00''), null_read_message = ''data is null''\<rparr>"
  let ?data = "\<lparr>location = ''Santa Cruz'',
                 outlook = (Null :: rat TouristPulseOutlook list js_property),
                 generated_at = ''2026-01-17T08:00:00''\<rparr>"
  let ?r = "\<lparr>ok = True, status = 200, json = Inr (Some ?data)\<rparr>"
  let ?s = "\<lparr>st_outlook = [\<lparr>date = ''2026-01-10'', demand_level = ''low'', confidence = 1 / 2 :: rat,
                      drivers = [], summary = ''Quiet''\<rparr>],
      st_loading = False, st_error = Some ''Backend API error: 500'',
      st_location = ''Santa Cruz''\<rparr>"
  have f: "(\<lambda>url. Resolved ?r) (request_url None (st_location ?s)) = Resolved ?r" by simp
  have k: "ok ?r" by simp
  have j: "json ?r = Inr (Some ?data)" by simp
  have n: "outlook ?data = Undefined \<or> outlook ?data = Null" by simp
  note th = missing_outlook_renders_empty [of "\<lambda>url. Resolved ?r" None ?s ?r ?data ?h, OF f k j n]
  have a: "loadTouristOutlook ?h None (\<lambda>url. Resolved ?r) ?s =
      \<lparr>st_outlook = [], st_loading = False, st_error = None, st_location = ''Santa Cruz''\<rparr>"
    using th [THEN conjunct1] by simp
  have b: "TouristPulse ?h (loadTouristOutlook ?h None (\<lambda>url. Resolved ?r) ?s) =
      ForecastView ''30-Day Tourism Forecast for Santa Cruz'' ''Generated at: N/A'' []
        (Some ''No outlook data available'')"
    using th [THEN conjunct2] by simp
  from a b show ?thesis by (rule conjI)
qed

text \<open>
  The claim as first stated also covers a successful reply whose body is the JSON literal
  \<open>null\<close>, which has no \<open>outlook\<close> property either. There the read of
  \<open>data.outlook\<close> throws, the \<open>catch\<close> block stores the message, and the component
  renders the error view.
\<close>

theorem null_body_enters_error_state:
  "st_error (loadTouristOutlook
     \<lparr>toLocaleString = (\<lambda>s. s), toLocaleDateString = (\<lambda>s. s), truthy = (\<lambda>c::rat. c \<noteq> 0),
      number_text = (\<lambda>c. ''0''), round_percent = (\<lambda>c. ''80''),
      toFixed2 = (\<lambda>c. ''1.00''), null_read_message = ''data is null''\<rparr>
     None (\<lambda>url. Resolved \<lparr>ok = True, status = 200, json = Inr None\<rparr>) initial_state) =
     Some ''data is null'' \<and>
   mounted
     \<lparr>toLocaleString = (\<lambda>s. s), toLocaleDateString = (\<lambda>s. s), truthy = (\<lambda>c::rat. c \<noteq> 0),
      number_text = (\<lambda>c. ''0''), round_percent = (\<lambda>c. ''80''),
      toFixed2 = (\<lambda>c. ''1.00''), null_read_message = ''data is null''\<rparr>
     None (\<lambda>url. Resolved \<lparr>ok = True, status = 200, json = Inr None\<rparr>) =
     ErrorView ''Error: data is null''"
  by (simp add: mounted_def loadTouristOutlook_def catch_def initial_state_def TouristPulse_def)

text \<open>
  Claim C9. Two successful replies that agree on \<open>location\<close> and on a non-empty
  \<open>outlook\<close>, and so differ in \<open>generated_at\<close> at most, are rendered the same; the text
  after "Generated at:" is the host's rendering of the first outlook's date.
\<close>

theorem generated_at_not_rendered:
  assumes "fetch1 (request_url env ''Santa Cruz'') = Resolved r1" and "ok r1"
    and "json r1 = Inr (Some d1)"
    and "fetch2 (request_url env ''Santa Cruz'') = Resolved r2" and "ok r2"
    and "json r2 = Inr (Some d2)"
    and "location d2 = location d1" and "outlook d2 = outlook d1"
    and "outlook d1 = Defined (day # days)"
  shows "mounted h env fetch1 = mounted h env fetch2 \<and>
         mounted h env fetch1 =
           ForecastView ''30-Day Tourism Forecast for Santa Cruz''
             (''Generated at: '' @ toLocaleString h (date day))
             (map (render_day h) (day # days)) None"
proof -
  have loc: "st_location (initial_state :: 'a component_state) = ''Santa Cruz''"
    by (simp add: initial_state_def)
  have s1: "loadTouristOutlook h env fetch1 initial_state =
      \<lparr>st_outlook = day # days, st_loading = False, st_error = None, st_location = ''Santa Cruz''\<rparr>"
    using loadTouristOutlook_ok [of fetch1 env initial_state r1 d1 h] assms
    by (simp add: loc initial_state_def)
  have s2: "loadTouristOutlook h env fetch2 initial_state =
      \<lparr>st_outlook = day # days, st_loading = False, st_error = None, st_location = ''Santa Cruz''\<rparr>"
    using loadTouristOutlook_ok [of fetch2 env initial_state r2 d2 h] assms
    by (simp add: loc initial_state_def)
  show ?thesis
    unfolding mounted_def s1 s2 by (simp add: TouristPulse_def forecast_def)
qed

theorem generated_at_not_rendered_witness:
  "mounted
     \<lparr>toLocaleString = (\<lambda>s. s), toLocaleDateString = (\<lambda>s. s), truthy = (\<lambda>c::rat. c \<noteq> 0),
      number_text = (\<lambda>c. ''0''), round_percent = (\<lambda>c. ''80''),
      toFixed2 = (\<lambda>c. ''1.00''), null_read_message = ''data is null''\<rparr>
     None
     (\<lambda>url. Resolved \<lparr>ok = True, status = 200,
        json = Inr (Some \<lparr>location = ''Santa Cruz'',
          outlook = Defined [\<lparr>date = ''2026-01-17'', demand_level = ''high'', confidence = 4 / 5,
            drivers = [\<lparr>source = ''events'', factor = ''concert'', impact = ''positive'', weight = 1\<rparr>],
            summary = ''Busy weekend''\<rparr>],
          generated_at = ''2026-01-16T08:00:00''\<rparr>)\<rparr>) =
   mounted
     \<lparr>toLocaleString = (\<lambda>s. s), toLocaleDateString = (\<lambda>s. s), truthy = (\<lambda>c::rat. c \<noteq> 0),
      number_text = (\<lambda>c. ''0''), round_percent = (\<lambda>c. ''80''),
      toFixed2 = (\<lambda>c. ''1.00''), null_read_message = ''data is null''\<rparr>
     None
     (\<lambda>url. Resolved \<lparr>ok = True, status = 200,
        json = Inr (Some \<lparr>location = ''Santa Cruz'',
          outlook = Defined [\<lparr>date = ''2026-01-17'', demand_level = ''high'', confidence = 4 / 5,
            drivers = [\<lparr>source = ''events'', factor = ''concert'', impact = ''positive'', weight = 1\<rparr>],
            summary = ''Busy weekend''\<rparr>],
          generated_at = ''1999-12-31T23:59:59''\<rparr>)\<rparr>)"
proof -
  let ?day = "\<lparr>date = ''2026-01-17'', demand_level = ''high'', confidence = 4 / 5 :: rat,
            drivers = [\<lparr>source = ''events'', factor = ''concert'', impact = ''positive'', weight = 1\<rparr>],
            summary = ''Busy weekend''\<rparr>"
  let ?d1 = "\<lparr>location = ''Santa Cruz'', outlook = Defined [?day],
               generated_at = ''2026-01-16T08:00:00''\<rparr>"
  let ?d2 = "\<lparr>location = ''Santa Cruz'', outlook = Defined [?day],
               generated_at = ''1999-12-31T23:59:59''\<rparr>"
  let ?r1 = "\<lparr>ok = True, status = 200, json = Inr (Some ?d1)\<rparr>"
  let ?r2 = "\<lparr>ok = True, status = 200, json = Inr (Some ?d2)\<rparr>"
  have f1: "(\<lambda>url. Resolved ?r1) (request_url None ''Santa Cruz'') = Resolved ?r1" by simp
  have f2: "(\<lambda>url. Resolved ?r2) (request_url None ''Santa Cruz'') = Resolved ?r2" by simp
  have k1: "ok ?r1" and k2: "ok ?r2" by simp_all
  have j1: "json ?r1 = Inr (Some ?d1)" and j2: "json ?r2 = Inr (Some ?d2)" by simp_all
  have l: "location ?d2 = location ?d1" and o: "outlook ?d2 = outlook ?d1" by simp_all
  have n: "outlook ?d1 = Defined (?day # [])" by simp
  from generated_at_not_rendered [OF f1 k1 j1 f2 k2 j2 l o n]
  show ?thesis by blast
qed

section \<open>Properties of the forecast engine as specified\<close>

subsection \<open>Signal ingestion\<close>









subsection \<open>Tier classification\<close>

lemma valid_bands_nth:
  "valid_bands bs \<Longrightarrow> i < length bs \<Longrightarrow>
     lower (bs ! i) < upper (bs ! i) \<and> lower (bs ! i) \<le> cutoff (bs ! i) \<and> cutoff (bs ! i) \<le> upper (bs ! i)"
  by (simp add: valid_bands_def list_all_length)

lemma valid_bands_ordered:
  "valid_bands bs \<Longrightarrow> j < i \<Longrightarrow> i < length bs \<Longrightarrow> upper (bs ! j) \<le> lower (bs ! i)"
  using sorted_wrt_nth_less [of "\<lambda>a b. upper a \<le> lower b" bs j i] by (simp add: valid_bands_def)

lemma reached_le_length: "reached f bs s \<le> length bs"
  by (simp add: reached_def)

lemma reached_split:
  assumes "i < length bs"
    and "\<forall>b \<in> set (take i bs). f b \<le> s"
    and "\<forall>b \<in> set (drop (Suc i) bs). \<not> f b \<le> s"
  shows "reached f bs s = i + (if f (bs ! i) \<le> s then 1 else 0)"
proof -
  have "bs = take i bs @ bs ! i # drop (Suc i) bs"
    using assms(1) by (rule id_take_nth_drop)
  then have "reached f bs s =
      length (filter (\<lambda>b. f b \<le> s) (take i bs)) + length (filter (\<lambda>b. f b \<le> s) [bs ! i]) +
      length (filter (\<lambda>b. f b \<le> s) (drop (Suc i) bs))"
    unfolding reached_def by (metis add.assoc append_Cons append_Nil filter_append length_append)
  moreover have "filter (\<lambda>b. f b \<le> s) (take i bs) = take i bs"
    using assms(2) by (simp add: filter_id_conv)
  moreover have "filter (\<lambda>b. f b \<le> s) (drop (Suc i) bs) = []"
    using assms(3) by (simp add: filter_empty_conv)
  ultimately show ?thesis using assms(1) by simp
qed

lemma fst_classify_periods_Cons:
  "fst (classify_periods cfg st key (s # scores)) =
     classify (cfg (fst key)) (st key) s #
     fst (classify_periods cfg (st(key \<mapsto> classify (cfg (fst key)) (st key) s)) key scores)"
  by (simp add: classify_request_def Let_def split: prod.splits)

lemma ascending_upper: "valid_bands bs \<Longrightarrow> j \<le> k \<Longrightarrow> k < length bs \<Longrightarrow> upper (bs ! j) \<le> upper (bs ! k)"
  using valid_bands_ordered [of bs j k] valid_bands_nth [of bs k] by (cases "j = k") auto

lemma ascending_lower: "valid_bands bs \<Longrightarrow> j \<le> k \<Longrightarrow> k < length bs \<Longrightarrow> lower (bs ! j) \<le> lower (bs ! k)"
  using valid_bands_ordered [of bs j k] valid_bands_nth [of bs j] by (cases "j = k") auto

lemma reached_below:
  assumes "\<And>j k. j \<le> k \<Longrightarrow> k < length bs \<Longrightarrow> f (bs ! j) \<le> f (bs ! k)"
    and "t < reached f bs s"
  shows "t < length bs \<and> f (bs ! t) \<le> s"
proof -
  let ?P = "\<lambda>b. f b \<le> s"
  have tl: "t < length bs" using assms(2) reached_le_length [of f bs s] by simp
  have "reached f bs s = length (filter ?P (take t bs)) + length (filter ?P (drop t bs))"
    unfolding reached_def by (metis append_take_drop_id filter_append length_append)
  moreover have "length (filter ?P (take t bs)) \<le> t"
    by (metis length_filter_le length_take min.cobounded2 order_trans)
  ultimately have "filter ?P (drop t bs) \<noteq> []" using assms(2) by auto
  then obtain b where b: "b \<in> set (drop t bs)" "f b \<le> s"
    by (auto simp: filter_empty_conv)
  then obtain k where k: "k < length (drop t bs)" "drop t bs ! k = b"
    by (auto simp: in_set_conv_nth)
  then have j: "t + k < length bs" "b = bs ! (t + k)" by auto
  have "f (bs ! t) \<le> f (bs ! (t + k))" using assms(1) [of t "t + k"] j(1) by simp
  with b(2) j(2) tl show ?thesis by simp
qed

lemma reached_above:
  assumes "\<And>j k. j \<le> k \<Longrightarrow> k < length bs \<Longrightarrow> f (bs ! j) \<le> f (bs ! k)"
    and "reached f bs s \<le> t" and "t < length bs"
  shows "s < f (bs ! t)"
proof (rule ccontr)
  assume "\<not> s < f (bs ! t)"
  then have ft: "f (bs ! t) \<le> s" by simp
  let ?P = "\<lambda>b. f b \<le> s"
  have "\<forall>b \<in> set (take (Suc t) bs). ?P b"
  proof
    fix b assume "b \<in> set (take (Suc t) bs)"
    then obtain j where j: "j < length (take (Suc t) bs)" "take (Suc t) bs ! j = b"
      by (auto simp: in_set_conv_nth)
    then have "j \<le> t" "b = bs ! j" by auto
    with assms(1) [of j t] assms(3) ft show "?P b" by simp
  qed
  then have "filter ?P (take (Suc t) bs) = take (Suc t) bs" by (simp add: filter_id_conv)
  moreover have "reached f bs s =
      length (filter ?P (take (Suc t) bs)) + length (filter ?P (drop (Suc t) bs))"
    unfolding reached_def by (metis append_take_drop_id filter_append length_append)
  ultimately have "Suc t \<le> reached f bs s" using assms(3) by simp
  with assms(2) show False by simp
qed

lemma upper_le_lower_reached:
  assumes "valid_bands bs"
  shows "reached upper bs s \<le> reached lower bs s"
proof (rule ccontr)
  assume "\<not> reached upper bs s \<le> reached lower bs s"
  then have lt: "reached lower bs s < reached upper bs s" by simp
  let ?d = "reached lower bs s"
  from reached_below [of bs upper ?d s] ascending_upper [OF assms] lt
  have d: "?d < length bs" "upper (bs ! ?d) \<le> s" by auto
  from reached_above [of bs lower s ?d] ascending_lower [OF assms] d(1)
  have "s < lower (bs ! ?d)" by auto
  with d valid_bands_nth [OF assms d(1)] show False by simp
qed

lemma classify_step:
  assumes "valid_bands bs" and "t \<le> length bs"
  shows "classify bs (Some t) s \<le> length bs"
    and "classify bs (Some t) s < length bs \<Longrightarrow> s < upper (bs ! classify bs (Some t) s)"
    and "0 < classify bs (Some t) s \<Longrightarrow> lower (bs ! (classify bs (Some t) s - 1)) \<le> s"
    and "t < classify bs (Some t) s \<Longrightarrow> upper (bs ! (classify bs (Some t) s - 1)) \<le> s"
    and "classify bs (Some t) s < t \<Longrightarrow> s < lower (bs ! classify bs (Some t) s)"
    and "classify bs (Some t) s = t \<longleftrightarrow>
           (t < length bs \<longrightarrow> s < upper (bs ! t)) \<and> (0 < t \<longrightarrow> lower (bs ! (t - 1)) \<le> s)"
proof -
  let ?u = "reached upper bs s" and ?d = "reached lower bs s"
  note bu = reached_below [of bs upper _ s, OF ascending_upper [OF assms(1)]]
  note au = reached_above [of bs upper s, OF ascending_upper [OF assms(1)]]
  note bl = reached_below [of bs lower _ s, OF ascending_lower [OF assms(1)]]
  note al = reached_above [of bs lower s, OF ascending_lower [OF assms(1)]]
  have ud: "?u \<le> ?d" by (rule upper_le_lower_reached [OF assms(1)])
  have dl: "?d \<le> length bs" by (rule reached_le_length)
  have lu: "lower (bs ! k) < upper (bs ! k)" if "k < length bs" for k
    using valid_bands_nth [OF assms(1) that] by simp
  consider (up) "t < ?u" | (down) "\<not> t < ?u" "?d < t" | (stay) "?u \<le> t" "t \<le> ?d"
    by linarith
  then have
    "classify bs (Some t) s \<le> length bs \<and>
     (classify bs (Some t) s < length bs \<longrightarrow> s < upper (bs ! classify bs (Some t) s)) \<and>
     (0 < classify bs (Some t) s \<longrightarrow> lower (bs ! (classify bs (Some t) s - 1)) \<le> s) \<and>
     (t < classify bs (Some t) s \<longrightarrow> upper (bs ! (classify bs (Some t) s - 1)) \<le> s) \<and>
     (classify bs (Some t) s < t \<longrightarrow> s < lower (bs ! classify bs (Some t) s)) \<and>
     (classify bs (Some t) s = t \<longleftrightarrow>
        (t < length bs \<longrightarrow> s < upper (bs ! t)) \<and> (0 < t \<longrightarrow> lower (bs ! (t - 1)) \<le> s))"
  proof cases
    case up
    then have c: "classify bs (Some t) s = ?u" by (simp add: classify_def)
    have u0: "0 < ?u" using up by simp
    have 1: "upper (bs ! (?u - 1)) \<le> s" using bu [of "?u - 1"] u0 by simp
    have 2: "?u - 1 < length bs" using bu [of "?u - 1"] u0 by simp
    have 3: "lower (bs ! (?u - 1)) \<le> s" using 1 lu [OF 2] by simp
    have 4: "s < upper (bs ! ?u)" if "?u < length bs" using au [of ?u] that by simp
    have 5: "upper (bs ! t) \<le> s" "t < length bs" using bu [of t] up by simp_all
    show ?thesis unfolding c using up u0 1 3 4 5 ud dl by auto
  next
    case down
    then have c: "classify bs (Some t) s = ?d" by (simp add: classify_def)
    have dlt: "?d < length bs" using down(2) assms(2) by simp
    have 1: "s < lower (bs ! ?d)" using al [of ?d] dlt by simp
    have 2: "s < upper (bs ! ?d)" using 1 lu [OF dlt] by simp
    have 3: "lower (bs ! (?d - 1)) \<le> s" if "0 < ?d" using bl [of "?d - 1"] that by simp
    have t1: "t - 1 < length bs" "?d \<le> t - 1" using down(2) assms(2) by simp_all
    have 4: "s < lower (bs ! (t - 1))" using al [of "t - 1"] t1 by simp
    show ?thesis unfolding c using down 1 2 3 4 dlt by auto
  next
    case stay
    then have c: "classify bs (Some t) s = t" by (simp add: classify_def)
    have 1: "s < upper (bs ! t)" if "t < length bs" using au [of t] stay(1) that by simp
    have 2: "lower (bs ! (t - 1)) \<le> s" if "0 < t" using bl [of "t - 1"] stay(2) that by simp
    show ?thesis unfolding c using 1 2 assms(2) by auto
  qed
  note all = this
  show "classify bs (Some t) s \<le> length bs" using all by blast
  show "classify bs (Some t) s < length bs \<Longrightarrow> s < upper (bs ! classify bs (Some t) s)"
    using all by blast
  show "0 < classify bs (Some t) s \<Longrightarrow> lower (bs ! (classify bs (Some t) s - 1)) \<le> s"
    using all by blast
  show "t < classify bs (Some t) s \<Longrightarrow> upper (bs ! (classify bs (Some t) s - 1)) \<le> s"
    using all by blast
  show "classify bs (Some t) s < t \<Longrightarrow> s < lower (bs ! classify bs (Some t) s)"
    using all by blast
  show "classify bs (Some t) s = t \<longleftrightarrow>
           (t < length bs \<longrightarrow> s < upper (bs ! t)) \<and> (0 < t \<longrightarrow> lower (bs ! (t - 1)) \<le> s)"
    using all by (elim conjE) assumption
qed

lemma reached_near:
  assumes "valid_bands bs" and "i < length bs" and "near_boundary bs i s"
    and "\<And>k. k < length bs \<Longrightarrow> lower (bs ! k) \<le> f (bs ! k) \<and> f (bs ! k) \<le> upper (bs ! k)"
  shows "reached f bs s = i + (if f (bs ! i) \<le> s then 1 else 0)"
proof (rule reached_split [OF assms(2)])
  show "\<forall>b \<in> set (take i bs). f b \<le> s"
  proof
    fix b assume "b \<in> set (take i bs)"
    then obtain j where j: "j < length (take i bs)" "take i bs ! j = b"
      by (auto simp: in_set_conv_nth)
    then have ji: "j < i" and b: "b = bs ! j" by auto
    have "upper (bs ! j) \<le> upper (bs ! (i - 1))"
      using ascending_upper [OF assms(1), of j "i - 1"] ji assms(2) by simp
    moreover have "upper (bs ! (i - 1)) \<le> s"
      using assms(3) ji by (simp add: near_boundary_def)
    moreover have "f (bs ! j) \<le> upper (bs ! j)" using assms(4) [of j] ji assms(2) by simp
    ultimately show "f b \<le> s" unfolding b by linarith
  qed
  show "\<forall>b \<in> set (drop (Suc i) bs). \<not> f b \<le> s"
  proof
    fix b assume "b \<in> set (drop (Suc i) bs)"
    then obtain k where k: "k < length (drop (Suc i) bs)" "drop (Suc i) bs ! k = b"
      by (auto simp: in_set_conv_nth)
    then have jl: "Suc i + k < length bs" and b: "b = bs ! (Suc i + k)" by auto
    have "lower (bs ! Suc i) \<le> lower (bs ! (Suc i + k))"
      using ascending_lower [OF assms(1), of "Suc i" "Suc i + k"] jl by simp
    moreover have "s < lower (bs ! Suc i)"
      using assms(3) jl by (simp add: near_boundary_def)
    moreover have "lower (bs ! (Suc i + k)) \<le> f (bs ! (Suc i + k))" using assms(4) [OF jl] by simp
    ultimately show "\<not> f b \<le> s" unfolding b by linarith
  qed
qed

lemma classify_near:
  assumes "valid_bands bs" and "i < length bs" and "near_boundary bs i s"
  shows "classify bs (Some t) s = side_tier i (latch_step (bs ! i) (i < t) s)"
    and "classify bs None s = side_tier i (latch_step (bs ! i) (cutoff (bs ! i) \<le> s) s)"
proof -
  note v = valid_bands_nth [OF assms(1)]
  have u: "reached upper bs s = i + (if upper (bs ! i) \<le> s then 1 else 0)"
    by (rule reached_near [OF assms]) (use v in force)
  have l: "reached lower bs s = i + (if lower (bs ! i) \<le> s then 1 else 0)"
    by (rule reached_near [OF assms]) (use v in force)
  have c: "reached cutoff bs s = i + (if cutoff (bs ! i) \<le> s then 1 else 0)"
    by (rule reached_near [OF assms]) (use v in force)
  show "classify bs (Some t) s = side_tier i (latch_step (bs ! i) (i < t) s)"
    using v [OF assms(2)] by (auto simp: classify_def u l side_tier_def latch_step_def)
  show "classify bs None s = side_tier i (latch_step (bs ! i) (cutoff (bs ! i) \<le> s) s)"
    using v [OF assms(2)] by (auto simp: classify_def c side_tier_def latch_step_def)
qed

lemma side_tier_above: "i < side_tier i high \<longleftrightarrow> high"
  by (simp add: side_tier_def)

lemma classify_periods_latch_Some:
  assumes "valid_bands (cfg (fst key))" and "i < length (cfg (fst key))"
    and "\<forall>s \<in> set scores. near_boundary (cfg (fst key)) i s"
    and "st key = Some t"
  shows "fst (classify_periods cfg st key scores) =
           map (side_tier i) (latch (cfg (fst key) ! i) (i < t) scores)"
  using assms(3,4)
proof (induction scores arbitrary: st t)
  case Nil
  then show ?case by simp
next
  case (Cons s scores)
  let ?h = "latch_step (cfg (fst key) ! i) (i < t) s"
  have near: "near_boundary (cfg (fst key)) i s" using Cons.prems(1) by simp
  have c: "classify (cfg (fst key)) (st key) s = side_tier i ?h"
    unfolding Cons.prems(2) by (rule classify_near(1) [OF assms(1,2) near])
  have "fst (classify_periods cfg (st(key \<mapsto> side_tier i ?h)) key scores) =
          map (side_tier i) (latch (cfg (fst key) ! i) (i < side_tier i ?h) scores)"
  proof (rule Cons.IH)
    show "\<forall>s \<in> set scores. near_boundary (cfg (fst key)) i s" using Cons.prems(1) by simp
    show "(st(key \<mapsto> side_tier i ?h)) key = Some (side_tier i ?h)" by simp
  qed
  then show ?case
    unfolding fst_classify_periods_Cons c by (simp add: side_tier_above)
qed

lemma classify_periods_latch:
  assumes "valid_bands (cfg (fst key))" and "i < length (cfg (fst key))"
    and "\<forall>s \<in> set scores. near_boundary (cfg (fst key)) i s"
  shows "fst (classify_periods cfg st key scores) =
           map (side_tier i)
             (latch (cfg (fst key) ! i) (start_side (cfg (fst key) ! i) i (st key) scores) scores)"
proof (cases "st key")
  case (Some t)
  then show ?thesis
    using classify_periods_latch_Some
      [where cfg = cfg and key = key and i = i and scores = scores and st = st and t = t,
        OF assms Some]
    by (simp add: start_side_def)
next
  case None
  show ?thesis
  proof (cases scores)
    case Nil
    then show ?thesis by simp
  next
    case (Cons s rest)
    let ?b = "cfg (fst key) ! i"
    let ?h = "latch_step ?b (cutoff ?b \<le> s) s"
    have near: "near_boundary (cfg (fst key)) i s" using assms(3) Cons by simp
    have c: "classify (cfg (fst key)) (st key) s = side_tier i ?h"
      unfolding None by (rule classify_near(2) [OF assms(1,2) near])
    have "fst (classify_periods cfg (st(key \<mapsto> side_tier i ?h)) key rest) =
            map (side_tier i) (latch ?b (i < side_tier i ?h) rest)"
    proof (rule classify_periods_latch_Some [where cfg = cfg and key = key and i = i])
      show "\<forall>s \<in> set rest. near_boundary (cfg (fst key)) i s" using assms(3) Cons by simp
      show "(st(key \<mapsto> side_tier i ?h)) key = Some (side_tier i ?h)" by simp
    qed (rule assms(1) assms(2))+
    then show ?thesis
      unfolding Cons fst_classify_periods_Cons c
      by (simp add: side_tier_above start_side_def None)
  qed
qed

lemma tier_changes_Cons_le: "tier_changes ts \<le> tier_changes (t # ts)"
  by (cases ts) simp_all

lemma latch_changes:
  assumes "lower b < upper b"
  shows "tier_changes (map (side_tier i) (high # latch b high scores)) =
         tier_changes (map (side_tier i) (high # band_exits b scores))"
proof (induction scores arbitrary: high)
  case Nil
  then show ?case by (simp add: band_exits_def)
next
  case (Cons s scores)
  let ?h = "latch_step b high s"
  show ?case
  proof (cases "upper b \<le> s \<or> s < lower b")
    case True
    then have e: "band_exits b (s # scores) = ?h # band_exits b scores"
      using assms by (auto simp: band_exits_def latch_step_def)
    show ?thesis unfolding e using Cons.IH [of ?h] by simp
  next
    case False
    then have h: "?h = high" by (auto simp: latch_step_def)
    from False have e: "band_exits b (s # scores) = band_exits b scores"
      by (auto simp: band_exits_def)
    show ?thesis unfolding e using Cons.IH [of high] by (simp add: h)
  qed
qed

lemma band_exits_inside:
  "\<forall>s \<in> set scores. lower b \<le> s \<and> s < upper b \<Longrightarrow> band_exits b scores = []"
  by (auto simp: band_exits_def filter_empty_conv)

lemma tier_changes_side: "tier_changes (map (side_tier i) hs) = tier_changes (map (side_tier 0) hs)"
proof (induction hs)
  case Nil
  then show ?case by simp
next
  case (Cons h hs)
  then show ?case by (cases hs) (auto simp: side_tier_def)
qed

lemma classify_le_length:
  assumes "valid_bands bs"
  shows "classify bs prior s \<le> length bs"
proof (cases prior)
  case None
  then show ?thesis by (simp add: classify_def reached_le_length)
next
  case (Some t)
  show ?thesis
  proof (cases "t \<le> length bs")
    case True
    then show ?thesis unfolding Some by (rule classify_step(1) [OF assms])
  next
    case False
    then have "reached lower bs s < t" using reached_le_length [of lower bs s] by simp
    then show ?thesis
      unfolding Some using reached_le_length [of lower bs s] reached_le_length [of upper bs s]
      by (simp add: classify_def)
  qed
qed

lemma classify_periods_kept:
  assumes "valid_bands (cfg (fst key))" and "t \<le> length (cfg (fst key))"
    and "\<forall>s \<in> set scores. keeps_tier (cfg (fst key)) t s"
    and "st key = Some t"
  shows "fst (classify_periods cfg st key scores) = replicate (length scores) t"
  using assms(3,4)
proof (induction scores arbitrary: st)
  case Nil
  then show ?case by simp
next
  case (Cons s scores)
  have "keeps_tier (cfg (fst key)) t s" using Cons.prems(1) by simp
  then have c: "classify (cfg (fst key)) (st key) s = t"
    unfolding Cons.prems(2) classify_step(6) [OF assms(1,2)] keeps_tier_def .
  have "fst (classify_periods cfg (st(key \<mapsto> t)) key scores) = replicate (length scores) t"
  proof (rule Cons.IH)
    show "\<forall>s \<in> set scores. keeps_tier (cfg (fst key)) t s" using Cons.prems(1) by simp
    show "(st(key \<mapsto> t)) key = Some t" by simp
  qed
  then show ?case unfolding fst_classify_periods_Cons c by simp
qed

text \<open>
  Claim C3. In every band the lower threshold is strictly below the upper one. While the
  scores of consecutive periods stay near one boundary, the classifier is the latch of that
  boundary: the tier goes to the higher side only when the score has reached the upper
  threshold and returns to the lower side only when the score has fallen below the lower
  threshold. Counted from the side the run starts on, the tier changes exactly once per
  crossing of the band, and not at all while the scores stay inside the band. After the
  first classification of a run the tier never changes as long as the scores stay between
  the lower threshold under it and the upper threshold above it. In a single step the tier
  is kept exactly on those scores; a rise ends at a tier whose lower boundary's upper
  threshold the score has reached, a fall at a tier whose upper boundary's lower threshold
  the score is below.
\<close>

theorem hysteresis_no_flapping:
  assumes "valid_bands (cfg m)"
  shows
    "(\<forall>i. i < length (cfg m) \<longrightarrow> lower (cfg m ! i) < upper (cfg m ! i)) \<and>
     (\<forall>i. i < length (cfg m) \<and> (\<forall>s \<in> set scores. near_boundary (cfg m) i s) \<longrightarrow>
        fst (classify_periods cfg st (m, loc) scores) =
          map (side_tier i)
            (latch (cfg m ! i) (start_side (cfg m ! i) i (st (m, loc)) scores) scores) \<and>
        tier_changes (side_tier i (start_side (cfg m ! i) i (st (m, loc)) scores) #
            fst (classify_periods cfg st (m, loc) scores)) =
          crossings (cfg m ! i) (start_side (cfg m ! i) i (st (m, loc)) scores) scores \<and>
        tier_changes (fst (classify_periods cfg st (m, loc) scores)) \<le>
          crossings (cfg m ! i) (start_side (cfg m ! i) i (st (m, loc)) scores) scores \<and>
        ((\<forall>s \<in> set scores. lower (cfg m ! i) \<le> s \<and> s < upper (cfg m ! i)) \<longrightarrow>
           tier_changes (fst (classify_periods cfg st (m, loc) scores)) = 0)) \<and>
     (\<forall>s rest. scores = s # rest \<and>
          (\<forall>x \<in> set rest. keeps_tier (cfg m) (classify (cfg m) (st (m, loc)) s) x) \<longrightarrow>
        fst (classify_periods cfg st (m, loc) scores) =
          replicate (length scores) (classify (cfg m) (st (m, loc)) s)) \<and>
     (\<forall>t s. t \<le> length (cfg m) \<longrightarrow>
        classify (cfg m) (Some t) s \<le> length (cfg m) \<and>
        (classify (cfg m) (Some t) s = t \<longleftrightarrow> keeps_tier (cfg m) t s) \<and>
        keeps_tier (cfg m) (classify (cfg m) (Some t) s) s \<and>
        (t < classify (cfg m) (Some t) s \<longrightarrow>
           upper (cfg m ! (classify (cfg m) (Some t) s - 1)) \<le> s) \<and>
        (classify (cfg m) (Some t) s < t \<longrightarrow>
           s < lower (cfg m ! classify (cfg m) (Some t) s)))"
proof -
  let ?bs = "cfg m"
  let ?tiers = "fst (classify_periods cfg st (m, loc) scores)"
  have 1: "\<forall>i. i < length ?bs \<longrightarrow> lower (?bs ! i) < upper (?bs ! i)"
    using valid_bands_nth [OF assms] by simp
  have 2: "\<forall>i. i < length ?bs \<and> (\<forall>s \<in> set scores. near_boundary ?bs i s) \<longrightarrow>
        ?tiers = map (side_tier i) (latch (?bs ! i) (start_side (?bs ! i) i (st (m, loc)) scores) scores) \<and>
        tier_changes (side_tier i (start_side (?bs ! i) i (st (m, loc)) scores) # ?tiers) =
          crossings (?bs ! i) (start_side (?bs ! i) i (st (m, loc)) scores) scores \<and>
        tier_changes ?tiers \<le>
          crossings (?bs ! i) (start_side (?bs ! i) i (st (m, loc)) scores) scores \<and>
        ((\<forall>s \<in> set scores. lower (?bs ! i) \<le> s \<and> s < upper (?bs ! i)) \<longrightarrow>
           tier_changes ?tiers = 0)"
  proof (intro allI impI)
    fix i assume h: "i < length ?bs \<and> (\<forall>s \<in> set scores. near_boundary ?bs i s)"
    let ?b = "?bs ! i"
    let ?start = "start_side ?b i (st (m, loc)) scores"
    have lu: "lower ?b < upper ?b" using 1 h by simp
    have a: "?tiers = map (side_tier i) (latch ?b ?start scores)"
      using classify_periods_latch [where cfg = cfg and key = "(m, loc)" and i = i
          and scores = scores and st = st] assms h
      by simp
    have b: "tier_changes (side_tier i ?start # ?tiers) = crossings ?b ?start scores"
      unfolding a crossings_def
      using latch_changes [OF lu, of i ?start scores]
        tier_changes_side [of i "?start # band_exits ?b scores"]
      by simp
    have c: "tier_changes ?tiers \<le> crossings ?b ?start scores"
      using tier_changes_Cons_le [of ?tiers "side_tier i ?start"] b by simp
    have d: "(\<forall>s \<in> set scores. lower ?b \<le> s \<and> s < upper ?b) \<longrightarrow> tier_changes ?tiers = 0"
    proof
      assume "\<forall>s \<in> set scores. lower ?b \<le> s \<and> s < upper ?b"
      from band_exits_inside [OF this] c show "tier_changes ?tiers = 0"
        by (simp add: crossings_def)
    qed
    show "?tiers = map (side_tier i) (latch ?b ?start scores) \<and>
        tier_changes (side_tier i ?start # ?tiers) = crossings ?b ?start scores \<and>
        tier_changes ?tiers \<le> crossings ?b ?start scores \<and>
        ((\<forall>s \<in> set scores. lower ?b \<le> s \<and> s < upper ?b) \<longrightarrow> tier_changes ?tiers = 0)"
      by (intro conjI) (rule a b c d)+
  qed
  have 3: "\<forall>s rest. scores = s # rest \<and>
          (\<forall>x \<in> set rest. keeps_tier ?bs (classify ?bs (st (m, loc)) s) x) \<longrightarrow>
        ?tiers = replicate (length scores) (classify ?bs (st (m, loc)) s)"
  proof (intro allI impI)
    fix s rest
    assume h: "scores = s # rest \<and>
          (\<forall>x \<in> set rest. keeps_tier ?bs (classify ?bs (st (m, loc)) s) x)"
    let ?t = "classify ?bs (st (m, loc)) s"
    have "fst (classify_periods cfg (st((m, loc) \<mapsto> ?t)) (m, loc) rest) = replicate (length rest) ?t"
    proof (rule classify_periods_kept [where cfg = cfg and key = "(m, loc)"])
      show "valid_bands (cfg (fst (m, loc)))" using assms by simp
      show "?t \<le> length (cfg (fst (m, loc)))" using classify_le_length [OF assms] by simp
      show "\<forall>x \<in> set rest. keeps_tier (cfg (fst (m, loc))) ?t x" using h by simp
      show "(st((m, loc) \<mapsto> ?t)) (m, loc) = Some ?t" by simp
    qed
    moreover have "?tiers = ?t # fst (classify_periods cfg (st((m, loc) \<mapsto> ?t)) (m, loc) rest)"
      using h fst_classify_periods_Cons [of cfg st "(m, loc)" s rest] by simp
    ultimately show "?tiers = replicate (length scores) ?t"
      using h by simp
  qed
  have 4: "\<forall>t s. t \<le> length ?bs \<longrightarrow>
        classify ?bs (Some t) s \<le> length ?bs \<and>
        (classify ?bs (Some t) s = t \<longleftrightarrow> keeps_tier ?bs t s) \<and>
        keeps_tier ?bs (classify ?bs (Some t) s) s \<and>
        (t < classify ?bs (Some t) s \<longrightarrow> upper (?bs ! (classify ?bs (Some t) s - 1)) \<le> s) \<and>
        (classify ?bs (Some t) s < t \<longrightarrow> s < lower (?bs ! classify ?bs (Some t) s))"
  proof (intro allI impI)
    fix t s assume t: "t \<le> length ?bs"
    note c = classify_step [OF assms t, of s]
    have k: "keeps_tier ?bs (classify ?bs (Some t) s) s"
      unfolding keeps_tier_def using c(2) c(3) by (intro conjI impI)
    have e: "classify ?bs (Some t) s = t \<longleftrightarrow> keeps_tier ?bs t s"
      unfolding keeps_tier_def by (rule c(6))
    show "classify ?bs (Some t) s \<le> length ?bs \<and>
        (classify ?bs (Some t) s = t \<longleftrightarrow> keeps_tier ?bs t s) \<and>
        keeps_tier ?bs (classify ?bs (Some t) s) s \<and>
        (t < classify ?bs (Some t) s \<longrightarrow> upper (?bs ! (classify ?bs (Some t) s - 1)) \<le> s) \<and>
        (classify ?bs (Some t) s < t \<longrightarrow> s < lower (?bs ! classify ?bs (Some t) s))"
      using c(1) e k c(4) c(5) by (intro conjI impI)
  qed
  show ?thesis by (intro conjI) (rule 1 2 3 4)+
qed

theorem hysteresis_no_flapping_witness:
  "valid_bands [\<lparr>lower = 18, cutoff = 20, upper = 22\<rparr>, \<lparr>lower = 48, cutoff = 50, upper = 52\<rparr>,
                \<lparr>lower = 78, cutoff = 80, upper = 82\<rparr>] \<and>
   list_all (near_boundary [\<lparr>lower = 18, cutoff = 20, upper = 22\<rparr>,
       \<lparr>lower = 48, cutoff = 50, upper = 52\<rparr>, \<lparr>lower = 78, cutoff = 80, upper = 82\<rparr>] 1)
     [51, 53, 51, 53, 47, 49, 53] \<and>
   fst (classify_periods
      (\<lambda>m. [\<lparr>lower = 18, cutoff = 20, upper = 22\<rparr>, \<lparr>lower = 48, cutoff = 50, upper = 52\<rparr>,
             \<lparr>lower = 78, cutoff = 80, upper = 82\<rparr>])
      (\<lambda>k. None) (Tourism, ''Santa Cruz'') [51, 53, 51, 53, 47, 49, 53]) = [2, 2, 2, 2, 1, 1, 2] \<and>
   tier_changes (fst (classify_periods
      (\<lambda>m. [\<lparr>lower = 18, cutoff = 20, upper = 22\<rparr>, \<lparr>lower = 48, cutoff = 50, upper = 52\<rparr>,
             \<lparr>lower = 78, cutoff = 80, upper = 82\<rparr>])
      (\<lambda>k. None) (Tourism, ''Santa Cruz'') [51, 53, 51, 53, 47, 49, 53])) \<le> 2 \<and>
   crossings \<lparr>lower = 48, cutoff = 50, upper = 52\<rparr> True [51, 53, 51, 53, 47, 49, 53] = 2 \<and>
   tier_changes (fst (classify_periods
      (\<lambda>m. [\<lparr>lower = 18, cutoff = 20, upper = 22\<rparr>, \<lparr>lower = 48, cutoff = 50, upper = 52\<rparr>,
             \<lparr>lower = 78, cutoff = 80, upper = 82\<rparr>])
      ((\<lambda>k. None)((Tourism, ''Santa Cruz'') \<mapsto> 0)) (Tourism, ''Santa Cruz'') [51, 49, 51, 49])) = 0 \<and>
   valid_bands [\<lparr>lower = 18, cutoff = 20, upper = 22\<rparr>, \<lparr>lower = 22, cutoff = 24, upper = 26\<rparr>] \<and>
   fst (classify_periods
      (\<lambda>m. [\<lparr>lower = 18, cutoff = 20, upper = 22\<rparr>, \<lparr>lower = 22, cutoff = 24, upper = 26\<rparr>])
      (\<lambda>k. None) (Tourism, ''Santa Cruz'') [23, 21, 23, 21, 23, 21]) = [1, 1, 1, 1, 1, 1] \<and>
   classify [\<lparr>lower = 18, cutoff = 20, upper = 22\<rparr>, \<lparr>lower = 48, cutoff = 50, upper = 52\<rparr>,
             \<lparr>lower = 78, cutoff = 80, upper = 82\<rparr>] (Some 1) 53 = 2 \<and>
   upper ([\<lparr>lower = 18, cutoff = 20, upper = 22\<rparr>, \<lparr>lower = 48, cutoff = 50, upper = 52\<rparr>,
           \<lparr>lower = 78, cutoff = 80, upper = 82\<rparr>] ! (2 - 1)) \<le> 53 \<and>
   classify [\<lparr>lower = 18, cutoff = 20, upper = 22\<rparr>, \<lparr>lower = 48, cutoff = 50, upper = 52\<rparr>,
             \<lparr>lower = 78, cutoff = 80, upper = 82\<rparr>] (Some 2) 47 = 1 \<and>
   47 < lower ([\<lparr>lower = 18, cutoff = 20, upper = 22\<rparr>, \<lparr>lower = 48, cutoff = 50, upper = 52\<rparr>,
           \<lparr>lower = 78, cutoff = 80, upper = 82\<rparr>] ! 1) \<and>
   keeps_tier [\<lparr>lower = 18, cutoff = 20, upper = 22\<rparr>, \<lparr>lower = 48, cutoff = 50, upper = 52\<rparr>,
             \<lparr>lower = 78, cutoff = 80, upper = 82\<rparr>] 2 49 \<and>
   classify [\<lparr>lower = 18, cutoff = 20, upper = 22\<rparr>, \<lparr>lower = 48, cutoff = 50, upper = 52\<rparr>,
             \<lparr>lower = 78, cutoff = 80, upper = 82\<rparr>] (Some 2) 49 = 2"
proof -
  let ?bs = "[\<lparr>lower = 18, cutoff = 20, upper = 22\<rparr>, \<lparr>lower = 48, cutoff = 50, upper = 52\<rparr>,
              \<lparr>lower = 78, cutoff = 80, upper = 82\<rparr>]"
  let ?cs = "[\<lparr>lower = 18, cutoff = 20, upper = 22\<rparr>, \<lparr>lower = 22, cutoff = 24, upper = 26\<rparr>]"
  let ?cfg = "\<lambda>m::module. ?bs"
  let ?cfg2 = "\<lambda>m::module. ?cs"
  let ?key = "(Tourism, ''Santa Cruz'')"
  let ?none = "\<lambda>k::module \<times> string. None :: nat option"
  let ?st = "?none(?key \<mapsto> (0::nat))"
  let ?A = "[51, 53, 51, 53, 47, 49, 53] :: rat list"
  let ?B = "[51, 49, 51, 49] :: rat list"
  let ?C = "[23, 21, 23, 21, 23, 21] :: rat list"
  have v: "valid_bands (?cfg Tourism)" by (simp add: valid_bands_def)
  have v2: "valid_bands (?cfg2 Tourism)" by (simp add: valid_bands_def)
  have i: "1 < length (?cfg Tourism)" by simp
  have nA: "\<forall>s \<in> set ?A. near_boundary (?cfg Tourism) 1 s" by (simp add: near_boundary_def)
  have nB: "\<forall>s \<in> set ?B. near_boundary (?cfg Tourism) 1 s" by (simp add: near_boundary_def)
  have inB: "\<forall>s \<in> set ?B. lower (?cfg Tourism ! 1) \<le> s \<and> s < upper (?cfg Tourism ! 1)" by simp
  note hA = hysteresis_no_flapping [of ?cfg Tourism ?A ?none "''Santa Cruz''", OF v]
  note hB = hysteresis_no_flapping [of ?cfg Tourism ?B ?st "''Santa Cruz''", OF v]
  note hC = hysteresis_no_flapping [of ?cfg2 Tourism ?C ?none "''Santa Cruz''", OF v2]
  have startA: "start_side (?bs ! 1) 1 (?none ?key) ?A = True" by (simp add: start_side_def)
  have latchA: "map (side_tier 1) (latch (?bs ! 1) True ?A) = [2, 2, 2, 2, 1, 1, 2]"
    by (simp add: latch_step_def side_tier_def)
  have crossA: "crossings \<lparr>lower = 48, cutoff = 50, upper = 52\<rparr> True ?A = 2"
    by (simp add: crossings_def band_exits_def side_tier_def)
  note seqA = hA [THEN conjunct2, THEN conjunct1, THEN spec, of 1, THEN mp, OF conjI [OF i nA]]
  note seqB = hB [THEN conjunct2, THEN conjunct1, THEN spec, of 1, THEN mp, OF conjI [OF i nB]]
  have a: "fst (classify_periods ?cfg ?none ?key ?A) = [2, 2, 2, 2, 1, 1, 2]"
    using seqA [THEN conjunct1] startA latchA by simp
  have b: "tier_changes (fst (classify_periods ?cfg ?none ?key ?A)) \<le> 2"
    using seqA [THEN conjunct2, THEN conjunct2, THEN conjunct1] startA crossA by simp
  have c: "tier_changes (fst (classify_periods ?cfg ?st ?key ?B)) = 0"
    using seqB [THEN conjunct2, THEN conjunct2, THEN conjunct2] inB by (rule mp)
  have first: "classify ?cs (?none ?key) 23 = 1" by (simp add: classify_def reached_def)
  have kept: "\<forall>x \<in> set [21, 23, 21, 23, 21]. keeps_tier (?cfg2 Tourism) (classify (?cfg2 Tourism) (?none ?key) 23) x"
    unfolding first by (simp add: keeps_tier_def)
  have "fst (classify_periods ?cfg2 ?none ?key ?C) =
      replicate (length ?C) (classify (?cfg2 Tourism) (?none ?key) 23)"
    using hC [THEN conjunct2, THEN conjunct2, THEN conjunct1, THEN spec, THEN spec,
        of 23 "[21, 23, 21, 23, 21]"] kept
    by blast
  then have d: "fst (classify_periods ?cfg2 ?none ?key ?C) = [1, 1, 1, 1, 1, 1]"
    unfolding first by (simp add: numeral_eq_Suc)
  note step = hA [THEN conjunct2, THEN conjunct2, THEN conjunct2]
  have up: "classify ?bs (Some 1) 53 = 2" by (simp add: classify_def reached_def)
  have down: "classify ?bs (Some 2) 47 = 1" by (simp add: classify_def reached_def)
  have k: "keeps_tier ?bs 2 49" by (simp add: keeps_tier_def)
  from step [THEN spec, THEN spec, of 1 53] up have e: "upper (?bs ! (2 - 1)) \<le> 53" by simp
  from step [THEN spec, THEN spec, of 2 47] down have f: "47 < lower (?bs ! 1)" by simp
  from step [THEN spec, THEN spec, of 2 49] k have g: "classify ?bs (Some 2) 49 = 2" by simp
  have n: "list_all (near_boundary ?bs 1) ?A" using nA by (simp add: list_all_iff)
  from v n a b crossA c v2 d up e down f k g show ?thesis by (intro conjI) simp_all
qed

subsection \<open>Explanation assembly\<close>

lemma member_le_sum_list_nonneg:
  fixes xs :: "rat list"
  shows "\<forall>y \<in> set xs. 0 \<le> y \<Longrightarrow> x \<in> set xs \<Longrightarrow> x \<le> sum_list xs"
proof (induction xs)
  case Nil
  then show ?case by simp
next
  case (Cons a xs)
  have "0 \<le> sum_list xs" using Cons.prems(1) by (simp add: sum_list_nonneg)
  then show ?case using Cons by auto
qed

lemma sum_list_abs_nonneg: "0 \<le> sum_list (map (\<lambda>c. \<bar>contribution c\<bar>) kept)"
  by (rule sum_list_nonneg) auto

lemma abs_le_total:
  "c \<in> set kept \<Longrightarrow> \<bar>contribution c\<bar> \<le> sum_list (map (\<lambda>c. \<bar>contribution c\<bar>) kept)"
  by (rule member_le_sum_list_nonneg) auto

lemma sum_list_divide:
  fixes t :: rat
  shows "sum_list (map (\<lambda>c. f c / t) xs) = sum_list (map f xs) / t"
  by (induction xs) (simp_all add: add_divide_distrib)

lemma normalize_sum:
  "sum_list (map drv_weight (normalize kept)) =
     (if sum_list (map (\<lambda>c. \<bar>contribution c\<bar>) kept) = 0 then 0 else 1)"
  by (simp add: normalize_def Let_def comp_def sum_list_divide)

lemma normalize_each:
  assumes "d \<in> set (normalize kept)"
  shows "0 \<le> drv_weight d \<and> drv_weight d \<le> 1"
proof -
  let ?total = "sum_list (map (\<lambda>c. \<bar>contribution c\<bar>) kept)"
  from assms obtain c where c: "c \<in> set kept"
    and w: "drv_weight d = (if ?total = 0 then 0 else \<bar>contribution c\<bar> / ?total)"
    by (auto simp: normalize_def Let_def)
  show ?thesis
  proof (cases "?total = 0")
    case True
    with w show ?thesis by simp
  next
    case False
    then have pos: "0 < ?total" using sum_list_abs_nonneg [of kept] by simp
    with abs_le_total [OF c] w False show ?thesis by (simp add: divide_le_eq_1)
  qed
qed

lemma total_nonzero:
  assumes "c \<in> set kept" and "contribution c \<noteq> 0"
  shows "sum_list (map (\<lambda>c. \<bar>contribution c\<bar>) kept) \<noteq> 0"
  using abs_le_total [OF assms(1)] assms(2) by auto

text \<open>
  Claim C2. The weights of the drivers returned for one Outlook sum to at most 1, each
  weight lies between 0 and 1, and the sum is exactly 1 as soon as one kept driver has a
  contribution other than zero.
\<close>

theorem driver_weights_normalized:
  "sum_list (map drv_weight (assemble_drivers k cs)) \<le> 1 \<and>
   (\<forall>d \<in> set (assemble_drivers k cs). 0 \<le> drv_weight d \<and> drv_weight d \<le> 1) \<and>
   ((\<exists>c \<in> set (take k (rank cs)). contribution c \<noteq> 0) \<longrightarrow>
      sum_list (map drv_weight (assemble_drivers k cs)) = 1)"
  unfolding assemble_drivers_def
  using normalize_each [of _ "take k (rank cs)"] total_nonzero [of _ "take k (rank cs)"]
  by (auto simp: normalize_sum)

theorem driver_weights_normalized_witness:
  "\<lparr>drv_source = ''events'', drv_factor = ''concert'', drv_impact = Positive, drv_weight = 3 / 4\<rparr>
     \<in> set (assemble_drivers 2
        [\<lparr>cf_source = ''weather'', cf_factor = ''rain'', cf_value = - 2, cf_source_weight = 1 / 4\<rparr>,
         \<lparr>cf_source = ''events'', cf_factor = ''concert'', cf_value = 3, cf_source_weight = 1 / 2\<rparr>,
         \<lparr>cf_source = ''traffic'', cf_factor = ''inbound'', cf_value = 1, cf_source_weight = 1 / 4\<rparr>]) \<and>
   sum_list (map drv_weight (assemble_drivers 2
        [\<lparr>cf_source = ''weather'', cf_factor = ''rain'', cf_value = - 2, cf_source_weight = 1 / 4\<rparr>,
         \<lparr>cf_source = ''events'', cf_factor = ''concert'', cf_value = 3, cf_source_weight = 1 / 2\<rparr>,
         \<lparr>cf_source = ''traffic'', cf_factor = ''inbound'', cf_value = 1, cf_source_weight = 1 / 4\<rparr>])) = 1 \<and>
   contribution \<lparr>cf_source = ''events'', cf_factor = ''concert'', cf_value = 3, cf_source_weight = 1 / 2\<rparr> \<noteq> 0 \<and>
   (0::rat) \<le> 3 / 4 \<and> (3 / 4 :: rat) \<le> 1"
proof -
  let ?w = "\<lparr>cf_source = ''weather'', cf_factor = ''rain'', cf_value = - 2, cf_source_weight = 1 / 4\<rparr>"
  let ?e = "\<lparr>cf_source = ''events'', cf_factor = ''concert'', cf_value = 3, cf_source_weight = 1 / 2\<rparr>"
  let ?t = "\<lparr>cf_source = ''traffic'', cf_factor = ''inbound'', cf_value = 1, cf_source_weight = 1 / 4\<rparr>"
  let ?d = "\<lparr>drv_source = ''events'', drv_factor = ''concert'', drv_impact = Positive, drv_weight = 3 / 4\<rparr>"
  have r: "take 2 (rank [?w, ?e, ?t]) = [?e, ?w]"
    by (simp add: rank_def contribution_def)
  have a: "assemble_drivers 2 [?w, ?e, ?t] =
      [?d, \<lparr>drv_source = ''weather'', drv_factor = ''rain'', drv_impact = Negative, drv_weight = 1 / 4\<rparr>]"
    unfolding assemble_drivers_def r by (simp add: normalize_def contribution_def impact_of_def)
  have m: "?d \<in> set (assemble_drivers 2 [?w, ?e, ?t])" unfolding a by simp
  have c: "contribution ?e \<noteq> 0" by (simp add: contribution_def)
  have x: "\<exists>c \<in> set (take 2 (rank [?w, ?e, ?t])). contribution c \<noteq> 0"
    unfolding r using c by simp
  note h = driver_weights_normalized [of 2 "[?w, ?e, ?t]"]
  from h x have s: "sum_list (map drv_weight (assemble_drivers 2 [?w, ?e, ?t])) = 1" by blast
  from h m have "0 \<le> drv_weight ?d \<and> drv_weight ?d \<le> 1" by blast
  then have b: "(0::rat) \<le> 3 / 4 \<and> (3 / 4 :: rat) \<le> 1" by simp
  from m s c b show ?thesis by blast
qed

end
